theory Spec2Isabelle
  imports Complex_Main "HOL-Library.Log_Nat"
begin

section \<open>Python numbers\<close>

text \<open>
  Python integers are unbounded: they are \<open>int\<close>. Python floats are IEEE binary64
  values: a finite float is the rational it denotes, and the two infinities and
  not-a-number are separate values. Every float operation rounds the exact result to
  the nearest binary64 value, ties to the even significand. The sign of a zero is not
  kept (\<open>-0.0\<close> and \<open>0.0\<close> are one value here; \<open>math.floor\<close> and \<open>round\<close>
  do not tell them apart numerically).
\<close>

datatype py_error = ZeroDivisionError | OverflowError | ValueError

datatype pyfloat = Finite rat | PosInf | NegInf | NaN

text \<open>The binade of a positive rational \<open>p / q\<close>: the \<open>e\<close> with \<open>2^e \<le> p / q < 2^(e + 1)\<close>.\<close>

definition binade :: "rat \<Rightarrow> int" where
  "binade x =
     (let (p, q) = quotient_of \<bar>x\<bar>;
          e0 = bitlen p - bitlen q
      in if 2 powi e0 \<le> \<bar>x\<bar> then e0 else e0 - 1)"

text \<open>Rounding a rational to the nearest integer, ties to the even one.\<close>

definition rne :: "rat \<Rightarrow> int" where
  "rne x =
     (let f = \<lfloor>x\<rfloor>; d = x - of_int f
      in if d < 1 / 2 then f
         else if 1 / 2 < d then f + 1
         else if even f then f else f + 1)"

text \<open>
  The unit in the last place of binary64 at \<open>x\<close>: 53 significant bits, and the
  subnormal spacing \<open>2^-1074\<close> below \<open>2^-1022\<close>.
\<close>

definition ulp_exp :: "rat \<Rightarrow> int" where
  "ulp_exp x = max (binade x - 52) (- 1074)"

definition fl :: "rat \<Rightarrow> rat" where
  "fl x = (if x = 0 then 0
           else of_int (rne (x / 2 powi ulp_exp x)) * 2 powi ulp_exp x)"

definition dbl_limit :: rat where
  "dbl_limit = 2 ^ 1024"

text \<open>The result of an IEEE operation whose exact value is \<open>x\<close>: overflow gives an infinity.\<close>

definition fround :: "rat \<Rightarrow> pyfloat" where
  "fround x =
     (let r = fl x
      in if dbl_limit \<le> r then PosInf
         else if r \<le> - dbl_limit then NegInf
         else Finite r)"

text \<open>\<open>float(n)\<close> for an integer, as the mixed operators apply it: too large an integer raises.\<close>

definition int_to_float :: "int \<Rightarrow> py_error + pyfloat" where
  "int_to_float n =
     (let r = fl (of_int n)
      in if dbl_limit \<le> \<bar>r\<bar> then Inl OverflowError else Inr (Finite r))"

text \<open>\<open>a / b\<close> on two integers: true division, correctly rounded.\<close>

definition py_truediv :: "int \<Rightarrow> int \<Rightarrow> py_error + pyfloat" where
  "py_truediv a b =
     (if b = 0 then Inl ZeroDivisionError
      else let r = fl (of_int a / of_int b)
           in if dbl_limit \<le> \<bar>r\<bar> then Inl OverflowError else Inr (Finite r))"

fun fneg :: "pyfloat \<Rightarrow> pyfloat" where
  "fneg (Finite x) = Finite (- x)"
| "fneg PosInf = NegInf"
| "fneg NegInf = PosInf"
| "fneg NaN = NaN"

fun fadd :: "pyfloat \<Rightarrow> pyfloat \<Rightarrow> pyfloat" where
  "fadd (Finite x) (Finite y) = fround (x + y)"
| "fadd NaN _ = NaN"
| "fadd _ NaN = NaN"
| "fadd PosInf NegInf = NaN"
| "fadd NegInf PosInf = NaN"
| "fadd PosInf _ = PosInf"
| "fadd NegInf _ = NegInf"
| "fadd _ PosInf = PosInf"
| "fadd _ NegInf = NegInf"

definition fsub :: "pyfloat \<Rightarrow> pyfloat \<Rightarrow> pyfloat" where
  "fsub x y = fadd x (fneg y)"

fun fsign :: "pyfloat \<Rightarrow> int" where
  "fsign (Finite x) = (if 0 < x then 1 else if x < 0 then - 1 else 0)"
| "fsign PosInf = 1"
| "fsign NegInf = - 1"
| "fsign NaN = 0"

fun fmul :: "pyfloat \<Rightarrow> pyfloat \<Rightarrow> pyfloat" where
  "fmul (Finite x) (Finite y) = fround (x * y)"
| "fmul NaN _ = NaN"
| "fmul _ NaN = NaN"
| "fmul x y =
     (if fsign x * fsign y = 0 then NaN
      else if 0 < fsign x * fsign y then PosInf else NegInf)"

text \<open>\<open>math.floor(x)\<close>\<close>

fun math_floor :: "pyfloat \<Rightarrow> py_error + int" where
  "math_floor (Finite x) = Inr \<lfloor>x\<rfloor>"
| "math_floor PosInf = Inl OverflowError"
| "math_floor NegInf = Inl OverflowError"
| "math_floor NaN = Inl ValueError"

text \<open>
  \<open>round(x, 3)\<close>: the exact value of \<open>x\<close> rounded to three decimals, ties to even,
  and that decimal converted back to the nearest float.
\<close>

fun py_round3 :: "pyfloat \<Rightarrow> pyfloat" where
  "py_round3 (Finite x) = fround (of_int (rne (x * 1000)) / 1000)"
| "py_round3 f = f"

text \<open>Sequencing of computations that may raise.\<close>

definition bind :: "py_error + 'a \<Rightarrow> ('a \<Rightarrow> py_error + 'b) \<Rightarrow> py_error + 'b" where
  "bind m f = (case m of Inl e \<Rightarrow> Inl e | Inr v \<Rightarrow> f v)"

section \<open>Layers\<close>

text \<open>
  The classes \<open>Conv2DLayer\<close>, \<open>MaxPool2DLayer\<close> and \<open>AvgPool2DLayer\<close> extend
  \<open>Layer\<close>; the class of an object is its \<open>kind\<close>, which carries the fields the
  subclass adds (\<open>groups\<close> for a convolution, \<open>pool_type\<close> for a pooling layer).
\<close>

datatype layer_kind = Conv2D int | MaxPool2D string | AvgPool2D string

record layer =
  name :: string
  kernel_size :: int
  stride :: int
  padding :: int
  dilation :: int
  kind :: layer_kind

text \<open>\<open>Layer.__init__\<close> stores its five arguments; the subclass adds its own field.\<close>

definition Layer_init :: "layer_kind \<Rightarrow> string \<Rightarrow> int \<Rightarrow> int \<Rightarrow> int \<Rightarrow> int \<Rightarrow> layer" where
  "Layer_init c n k s p d =
     \<lparr>name = n, kernel_size = k, stride = s, padding = p, dilation = d, kind = c\<rparr>"

definition Conv2DLayer :: "int \<Rightarrow> int \<Rightarrow> int \<Rightarrow> int \<Rightarrow> layer" where
  "Conv2DLayer k s p d = Layer_init (Conv2D 1) ''Conv2D'' k s p d"

definition MaxPool2DLayer :: "int \<Rightarrow> int \<Rightarrow> int \<Rightarrow> layer" where
  "MaxPool2DLayer k s p = Layer_init (MaxPool2D ''MaxPool2D'') ''MaxPool2D'' k s p 1"

definition AvgPool2DLayer :: "int \<Rightarrow> int \<Rightarrow> int \<Rightarrow> layer" where
  "AvgPool2DLayer k s p = Layer_init (AvgPool2D ''AvgPool2D'') ''AvgPool2D'' k s p 1"

definition is_Conv2DLayer :: "layer \<Rightarrow> bool" where
  "is_Conv2DLayer l = (case kind l of Conv2D _ \<Rightarrow> True | _ \<Rightarrow> False)"

definition get_effective_kernel_size :: "layer \<Rightarrow> int" where
  "get_effective_kernel_size l = (kernel_size l - 1) * dilation l + 1"

definition compute_output_size :: "layer \<Rightarrow> int \<Rightarrow> py_error + int" where
  "compute_output_size l input_size =
     (let effective_kernel = get_effective_kernel_size l
      in bind (py_truediv (input_size + 2 * padding l - effective_kernel) (stride l)) (\<lambda>q.
         bind (math_floor q) (\<lambda>f.
         Inr (f + 1))))"

section \<open>The receptive field calculator\<close>

record calculator =
  rf :: int
  jump :: int
  start :: pyfloat
  layers :: "layer list"
  input_height :: int
  input_width :: int
  input_channels :: int

record dimensions =
  height :: int
  width :: int
  channels :: int

text \<open>One entry of \<open>results\<close>: the dictionary appended for a layer.\<close>

record row =
  row_name :: string
  row_kernel_size :: int
  row_stride :: int
  row_padding :: int
  row_dilation :: int
  row_effective_kernel :: int
  row_receptive_field :: int
  row_jump :: int
  row_start :: pyfloat
  row_input_height :: int
  row_input_width :: int
  row_input_channels :: int
  row_output_height :: int
  row_output_width :: int
  row_output_channels :: int

text \<open>The dictionary \<open>compute_current_state\<close> returns.\<close>

record trace =
  trace_layers :: "row list"
  current_rf :: int
  current_jump :: int
  current_start :: pyfloat
  input_dimensions :: dimensions
  final_dimensions :: dimensions

text \<open>The local variables of \<open>compute_current_state\<close> that live across loop iterations.\<close>

record locals =
  l_rf :: int
  l_j :: int
  l_start :: pyfloat
  l_results :: "row list"
  l_current_height :: int
  l_current_width :: int
  l_current_channels :: int

definition reset :: "calculator \<Rightarrow> calculator" where
  "reset c = c\<lparr>rf := 1, jump := 1, start := Finite (1 / 2), layers := [],
                input_height := 224, input_width := 224, input_channels := 3\<rparr>"

text \<open>
  \<open>__init__\<close> is \<open>self.reset()\<close> on an object that has no attribute yet; \<open>reset\<close>
  assigns every one of them.
\<close>

definition calculator_init :: calculator where
  "calculator_init =
     reset \<lparr>rf = 0, jump = 0, start = Finite 0, layers = [],
            input_height = 0, input_width = 0, input_channels = 0\<rparr>"

definition set_input_dimensions :: "calculator \<Rightarrow> int \<Rightarrow> int \<Rightarrow> int \<Rightarrow> calculator" where
  "set_input_dimensions c h w ch =
     c\<lparr>input_height := h, input_width := w, input_channels := ch\<rparr>"

text \<open>The body of the loop \<open>for layer in self.layers\<close>, in the order the statements run.\<close>

definition loop_body :: "layer \<Rightarrow> locals \<Rightarrow> py_error + locals" where
  "loop_body l v =
     (let k_eff = get_effective_kernel_size l;
          p = padding l;
          s = stride l;
          rf_next = l_rf v + (k_eff - 1) * l_j v
      in bind (py_truediv (k_eff - 1) 2) (\<lambda>half.
         bind (int_to_float p) (\<lambda>pf.
         bind (int_to_float (l_j v)) (\<lambda>jf.
         let start_next = fadd (l_start v) (fmul (fsub half pf) jf);
             j_next = l_j v * s
         in bind (compute_output_size l (l_current_height v)) (\<lambda>output_height.
            bind (compute_output_size l (l_current_width v)) (\<lambda>output_width.
            let output_channels =
                  (if is_Conv2DLayer l then l_current_channels v else l_current_channels v);
                r = \<lparr>row_name = name l, row_kernel_size = kernel_size l,
                     row_stride = stride l, row_padding = padding l,
                     row_dilation = dilation l, row_effective_kernel = k_eff,
                     row_receptive_field = rf_next, row_jump = j_next,
                     row_start = py_round3 start_next,
                     row_input_height = l_current_height v,
                     row_input_width = l_current_width v,
                     row_input_channels = l_current_channels v,
                     row_output_height = output_height,
                     row_output_width = output_width,
                     row_output_channels = output_channels\<rparr>
            in Inr \<lparr>l_rf = rf_next, l_j = j_next, l_start = start_next,
                    l_results = l_results v @ [r],
                    l_current_height = output_height,
                    l_current_width = output_width,
                    l_current_channels = output_channels\<rparr>))))))"

fun run_loop :: "layer list \<Rightarrow> locals \<Rightarrow> py_error + locals" where
  "run_loop [] v = Inr v"
| "run_loop (l # ls) v = bind (loop_body l v) (run_loop ls)"

definition initial_locals :: "calculator \<Rightarrow> locals" where
  "initial_locals c =
     \<lparr>l_rf = 1, l_j = 1, l_start = Finite (1 / 2), l_results = [],
      l_current_height = input_height c, l_current_width = input_width c,
      l_current_channels = input_channels c\<rparr>"

text \<open>
  A method is a function from the object to its result and the object afterwards.
  \<open>compute_current_state\<close> assigns no attribute.
\<close>

definition compute_current_state :: "calculator \<Rightarrow> (py_error + trace) \<times> calculator" where
  "compute_current_state c =
     (bind (run_loop (layers c) (initial_locals c)) (\<lambda>v.
        Inr \<lparr>trace_layers = l_results v,
             current_rf = l_rf v,
             current_jump = l_j v,
             current_start = py_round3 (l_start v),
             input_dimensions =
               \<lparr>height = input_height c, width = input_width c,
                channels = input_channels c\<rparr>,
             final_dimensions =
               \<lparr>height = l_current_height v, width = l_current_width v,
                channels = l_current_channels v\<rparr>\<rparr>),
      c)"

definition add_layer :: "calculator \<Rightarrow> layer \<Rightarrow> (py_error + trace) \<times> calculator" where
  "add_layer c l = compute_current_state (c\<lparr>layers := layers c @ [l]\<rparr>)"

section \<open>The request handlers\<close>

text \<open>
  A handler takes the calculator and the JSON body and gives the response and the
  calculator afterwards. A body is the value of each key, \<open>None\<close> for an absent key;
  the numeric fields hold JSON integers, on which \<open>int(...)\<close> is the identity. The
  body of an error response is a fixed message or \<open>str(e)\<close> of the exception caught.
\<close>

datatype error_body = Message string | Str_of py_error

datatype response = Json_trace trace | Json_message string | Error_400 error_body

definition api_set_input_dimensions ::
  "calculator \<Rightarrow> int option \<Rightarrow> int option \<Rightarrow> int option \<Rightarrow> response \<times> calculator" where
  "api_set_input_dimensions c height_key width_key channels_key =
     (let h = (case height_key of None \<Rightarrow> 224 | Some v \<Rightarrow> v);
          w = (case width_key of None \<Rightarrow> 224 | Some v \<Rightarrow> v);
          ch = (case channels_key of None \<Rightarrow> 3 | Some v \<Rightarrow> v)
      in if h \<le> 0 \<or> w \<le> 0 \<or> ch \<le> 0
         then (Error_400 (Message ''Dimensions must be positive integers''), c)
         else let c1 = set_input_dimensions c h w ch;
                  (result, c2) = compute_current_state c1
              in case result of
                   Inr t \<Rightarrow> (Json_trace t, c2)
                 | Inl e \<Rightarrow> (Error_400 (Str_of e), c2))"

record add_layer_body =
  type_key :: "string option"
  kernel_size_key :: "int option"
  stride_key :: "int option"
  padding_key :: "int option"
  dilation_key :: "int option"

text \<open>The layer the handler builds, \<open>None\<close> for a type it does not know.\<close>

definition requested_layer :: "add_layer_body \<Rightarrow> layer option" where
  "requested_layer b =
     (let layer_type = (case type_key b of None \<Rightarrow> ''conv'' | Some v \<Rightarrow> v);
          k = (case kernel_size_key b of None \<Rightarrow> 3 | Some v \<Rightarrow> v);
          s = (case stride_key b of None \<Rightarrow> 1 | Some v \<Rightarrow> v);
          p = (case padding_key b of None \<Rightarrow> 0 | Some v \<Rightarrow> v);
          d = (case dilation_key b of None \<Rightarrow> 1 | Some v \<Rightarrow> v)
      in if layer_type = ''conv'' then Some (Conv2DLayer k s p d)
         else if layer_type = ''maxpool'' then Some (MaxPool2DLayer k s p)
         else if layer_type = ''avgpool'' then Some (AvgPool2DLayer k s p)
         else None)"

definition api_add_layer :: "calculator \<Rightarrow> add_layer_body \<Rightarrow> response \<times> calculator" where
  "api_add_layer c b =
     (case requested_layer b of
        None \<Rightarrow> (Error_400 (Message ''Invalid layer type''), c)
      | Some l \<Rightarrow>
          (let (result, c1) = add_layer c l
           in case result of
                Inr t \<Rightarrow> (Json_trace t, c1)
              | Inl e \<Rightarrow> (Error_400 (Str_of e), c1)))"

definition api_reset :: "calculator \<Rightarrow> response \<times> calculator" where
  "api_reset c = (Json_message ''Reset successful'', reset c)"

section \<open>The specified trace, in exact arithmetic\<close>

text \<open>
  The specification states the output size and the scan with exact numbers. These
  definitions follow its wording; the theorems below compare the code with them.
\<close>

definition spec_output_size :: "layer \<Rightarrow> int \<Rightarrow> int" where
  "spec_output_size l input_size =
     \<lfloor>(of_int (input_size + 2 * padding l - ((kernel_size l - 1) * dilation l + 1)) :: rat)
        / of_int (stride l)\<rfloor> + 1"

record scan_state =
  sc_rf :: int
  sc_j :: int
  sc_start :: rat
  sc_rows :: "row list"
  sc_height :: int
  sc_width :: int
  sc_channels :: int

definition spec_step :: "scan_state \<Rightarrow> layer \<Rightarrow> scan_state" where
  "spec_step v l =
     (let k_eff = (kernel_size l - 1) * dilation l + 1;
          rf_next = sc_rf v + (k_eff - 1) * sc_j v;
          start_next = sc_start v + (of_int (k_eff - 1) / 2 - of_int (padding l)) * of_int (sc_j v);
          j_next = sc_j v * stride l;
          output_height = spec_output_size l (sc_height v);
          output_width = spec_output_size l (sc_width v)
      in \<lparr>sc_rf = rf_next, sc_j = j_next, sc_start = start_next,
          sc_rows = sc_rows v @
            [\<lparr>row_name = name l, row_kernel_size = kernel_size l, row_stride = stride l,
              row_padding = padding l, row_dilation = dilation l,
              row_effective_kernel = k_eff, row_receptive_field = rf_next,
              row_jump = j_next, row_start = Finite start_next,
              row_input_height = sc_height v, row_input_width = sc_width v,
              row_input_channels = sc_channels v,
              row_output_height = output_height, row_output_width = output_width,
              row_output_channels = sc_channels v\<rparr>],
          sc_height = output_height, sc_width = output_width,
          sc_channels = sc_channels v\<rparr>)"

definition spec_initial :: "calculator \<Rightarrow> scan_state" where
  "spec_initial c =
     \<lparr>sc_rf = 1, sc_j = 1, sc_start = 1 / 2, sc_rows = [],
      sc_height = input_height c, sc_width = input_width c,
      sc_channels = input_channels c\<rparr>"

definition spec_trace :: "calculator \<Rightarrow> trace" where
  "spec_trace c =
     (let v = foldl spec_step (spec_initial c) (layers c)
      in \<lparr>trace_layers = sc_rows v, current_rf = sc_rf v, current_jump = sc_j v,
          current_start = Finite (sc_start v),
          input_dimensions =
            \<lparr>height = input_height c, width = input_width c, channels = input_channels c\<rparr>,
          final_dimensions =
            \<lparr>height = sc_height v, width = sc_width v, channels = sc_channels v\<rparr>\<rparr>)"

text \<open>
  The magnitudes on which binary64 arithmetic is exact for the integers and
  half-integers the scan forms.
\<close>

definition small_int :: "int \<Rightarrow> bool" where
  "small_int n = (\<bar>n\<bar> < 2 ^ 52)"

definition small_rat :: "rat \<Rightarrow> bool" where
  "small_rat x = (\<bar>x\<bar> < 2 ^ 52)"

definition half_integer :: "rat \<Rightarrow> bool" where
  "half_integer x = (2 * x \<in> \<int>)"

definition step_in_range :: "scan_state \<Rightarrow> layer \<Rightarrow> bool" where
  "step_in_range v l =
     (let k_eff = (kernel_size l - 1) * dilation l + 1;
          d = of_int (k_eff - 1) / 2 - of_int (padding l)
      in 1 \<le> stride l \<and> small_int (stride l)
         \<and> small_int (k_eff - 1) \<and> small_int (padding l) \<and> small_int (sc_j v)
         \<and> small_rat d \<and> small_rat (d * of_int (sc_j v))
         \<and> small_rat (sc_start v + d * of_int (sc_j v))
         \<and> small_int (sc_height v + 2 * padding l - k_eff)
         \<and> small_int (sc_width v + 2 * padding l - k_eff))"

fun scan_in_range :: "scan_state \<Rightarrow> layer list \<Rightarrow> bool" where
  "scan_in_range v [] = True"
| "scan_in_range v (l # ls) = (step_in_range v l \<and> scan_in_range (spec_step v l) ls)"

definition trace_in_range :: "calculator \<Rightarrow> bool" where
  "trace_in_range c = scan_in_range (spec_initial c) (layers c)"

text \<open>A positive stride too large for a float, for an example below.\<close>

definition huge_stride :: int where
  "huge_stride = 2 ^ 1024"

text \<open>The locals of the code that correspond to a state of the specified scan.\<close>

definition as_locals :: "scan_state \<Rightarrow> locals" where
  "as_locals v =
     \<lparr>l_rf = sc_rf v, l_j = sc_j v, l_start = Finite (sc_start v),
      l_results = sc_rows v, l_current_height = sc_height v,
      l_current_width = sc_width v, l_current_channels = sc_channels v\<rparr>"

section \<open>Rounding is exact on small values\<close>

subsection \<open>Rounding to the nearest integer\<close>

lemma rne_of_int: "rne (of_int n) = n"
  by (simp add: rne_def)

lemma rne_floor_le: "\<lfloor>y\<rfloor> \<le> rne y"
  by (simp add: rne_def Let_def)

lemma rne_le_ceiling: "rne y \<le> \<lfloor>y\<rfloor> + 1"
  by (simp add: rne_def Let_def)

lemma rne_ge: "of_int n \<le> y \<Longrightarrow> n \<le> rne y"
proof -
  assume "of_int n \<le> y"
  then have "n \<le> \<lfloor>y\<rfloor>" by (simp add: le_floor_iff)
  with rne_floor_le [of y] show ?thesis by linarith
qed

lemma rne_le: "y \<le> of_int n \<Longrightarrow> rne y \<le> n"
proof (cases "y = of_int n")
  case True
  then show ?thesis by (simp add: rne_of_int)
next
  case False
  assume "y \<le> of_int n"
  with False have "y < of_int n" by simp
  then have "\<lfloor>y\<rfloor> < n" by (simp add: floor_less_iff)
  with rne_le_ceiling [of y] show ?thesis by linarith
qed

lemma rne_close: "\<bar>of_int (rne y) - y\<bar> \<le> 1 / 2"
proof -
  have "of_int \<lfloor>y\<rfloor> \<le> y" "y < of_int \<lfloor>y\<rfloor> + 1" by linarith+
  then show ?thesis
    by (auto simp: rne_def Let_def abs_le_iff)
qed

lemma scaled_floor:
  fixes a b K :: int and u :: rat
  assumes b: "0 < b" and a: "\<bar>a\<bar> < 2 ^ 53" and u: "0 < u" and K: "1 / u = of_int K"
    and big: "2 ^ 52 * u \<le> \<bar>of_int a / of_int b\<bar>"
  shows "\<lfloor>of_int (rne ((of_int a / of_int b) / u)) * u\<rfloor> = a div b"
proof -
  define x :: rat where "x = of_int a / of_int b"
  define n where "n = a div b"
  have n: "n = \<lfloor>x\<rfloor>" by (simp add: n_def x_def floor_divide_of_int_eq)
  have xu: "x / u = x * of_int K" using K u by (simp add: field_simps)
  have inv: "of_int K * u = 1" using K u by (simp add: field_simps)
  have lower: "of_int n \<le> of_int (rne (x / u)) * u"
  proof -
    have "of_int n \<le> x" using n by simp
    moreover have "0 \<le> 1 / u" using u by simp
    then have "0 \<le> (of_int K :: rat)" by (simp only: K)
    ultimately have "of_int n * of_int K \<le> x * of_int K" by (rule mult_right_mono)
    then have "of_int (n * K) \<le> x / u" by (simp add: xu)
    then have "n * K \<le> rne (x / u)" by (rule rne_ge)
    then have "(of_int (n * K) :: rat) \<le> of_int (rne (x / u))" by (simp only: of_int_le_iff)
    then have "of_int (n * K) * u \<le> of_int (rne (x / u)) * u" using u by (simp add: mult_right_mono)
    then show ?thesis using inv by (simp add: mult.assoc)
  qed
  have upper: "of_int (rne (x / u)) * u < of_int n + 1"
  proof (rule ccontr)
    assume "\<not> ?thesis"
    then have ge: "of_int n + 1 \<le> of_int (rne (x / u)) * u" by simp
    have "of_int (rne (x / u)) - x / u \<le> 1 / 2" using rne_close [of "x / u"] by linarith
    then have "(of_int (rne (x / u)) - x / u) * u \<le> (1 / 2) * u" using u by (simp add: mult_right_mono)
    moreover have "(of_int (rne (x / u)) - x / u) * u = of_int (rne (x / u)) * u - x"
      using u by (simp add: left_diff_distrib)
    ultimately have "of_int (rne (x / u)) * u - x \<le> u / 2" by simp
    with ge have gap: "of_int n + 1 - x \<le> u / 2" by linarith
    have "a mod b < b" using b by simp
    moreover have "a = b * (a div b) + a mod b" by simp
    ultimately have "a < b * (a div b) + b" by linarith
    then have "a < (n + 1) * b" by (simp add: n_def algebra_simps)
    then have "a + 1 \<le> (n + 1) * b" by simp
    then have "(of_int (a + 1) :: rat) \<le> of_int ((n + 1) * b)" by (simp only: of_int_le_iff)
    then have "of_int a + 1 \<le> (of_int n + 1) * (of_int b :: rat)" by simp
    then have "(of_int a + 1) / of_int b \<le> (of_int n + 1 :: rat)" using b by (simp add: field_simps)
    then have "1 / of_int b \<le> of_int n + 1 - x" using b by (simp add: x_def field_simps)
    with gap have ub: "1 / of_int b \<le> u / 2" by linarith
    have "2 ^ 52 * u \<le> \<bar>x\<bar>" using big by (simp only: x_def)
    then have "2 ^ 52 * u * of_int b \<le> \<bar>x\<bar> * of_int b"
      by (rule mult_right_mono) (use b in simp)
    also have "\<bar>x\<bar> * of_int b = \<bar>of_int a\<bar>" using b by (simp add: x_def abs_divide)
    also have "\<dots> < 2 ^ 53"
    proof -
      have "(of_int \<bar>a\<bar> :: rat) < of_int (2 ^ 53)" using a by (simp only: of_int_less_iff)
      then show ?thesis by simp
    qed
    finally have "u * of_int b < 2" by simp
    moreover from ub have "2 \<le> u * of_int b" using b by (simp add: field_simps)
    ultimately show False by simp
  qed
  from lower upper have "\<lfloor>of_int (rne (x / u)) * u\<rfloor> = n"
    by (simp add: floor_unique)
  then show ?thesis by (simp add: x_def n_def)
qed

subsection \<open>The binade\<close>

lemma bitlen_powi_bounds:
  assumes "0 < p"
  shows "2 powi (bitlen p - 1) \<le> (of_int p :: rat)" and "(of_int p :: rat) < 2 powi bitlen p"
proof -
  from assms have b1: "1 \<le> bitlen p"
    using bitlen_eq_zero_iff [of p] bitlen_nonneg [of p] by linarith
  from bitlen_bounds [OF assms]
  have lo: "2 ^ nat (bitlen p - 1) \<le> p" and hi: "p < 2 ^ nat (bitlen p)" by simp_all
  from lo have "(of_int (2 ^ nat (bitlen p - 1)) :: rat) \<le> of_int p" by (simp only: of_int_le_iff)
  then show "2 powi (bitlen p - 1) \<le> (of_int p :: rat)"
    using b1 by (simp add: power_int_nonneg_exp)
  from hi have "(of_int p :: rat) < of_int (2 ^ nat (bitlen p))" by (simp only: of_int_less_iff)
  then show "(of_int p :: rat) < 2 powi bitlen p"
    using b1 by (simp add: power_int_nonneg_exp)
qed

lemma binade_bounds:
  assumes "x \<noteq> 0"
  shows "2 powi binade x \<le> \<bar>x\<bar>" and "\<bar>x\<bar> < 2 powi (binade x + 1)"
proof -
  obtain p q where pq: "quotient_of \<bar>x\<bar> = (p, q)" by (cases "quotient_of \<bar>x\<bar>")
  then have q: "0 < q" by (rule quotient_of_denom_pos)
  from pq have x: "\<bar>x\<bar> = of_int p / of_int q" by (rule quotient_of_div)
  have "0 < \<bar>x\<bar>" using assms by simp
  with x q have "0 < (of_int p :: rat)" by (simp add: zero_less_divide_iff)
  then have p: "0 < p" by simp
  define e0 where "e0 = bitlen p - bitlen q"
  have hi: "\<bar>x\<bar> < 2 powi (e0 + 1)"
  proof -
    have "of_int p / of_int q < (2 powi bitlen p :: rat) / 2 powi (bitlen q - 1)"
      by (rule frac_less) (use p q bitlen_powi_bounds in simp_all)
    also have "\<dots> = 2 powi (bitlen p - (bitlen q - 1))"
      by (simp add: power_int_diff)
    finally show ?thesis by (simp add: x e0_def algebra_simps)
  qed
  have lo: "2 powi (e0 - 1) \<le> \<bar>x\<bar>"
  proof -
    have "(2 powi (bitlen p - 1) :: rat) / 2 powi bitlen q \<le> of_int p / of_int q"
      by (rule frac_le) (use p q bitlen_powi_bounds [of q] bitlen_powi_bounds [of p] in simp_all)
    moreover have "(2 powi (bitlen p - 1) :: rat) / 2 powi bitlen q = 2 powi (bitlen p - 1 - bitlen q)"
      by (simp add: power_int_diff)
    ultimately show ?thesis by (simp add: x e0_def algebra_simps)
  qed
  have b: "binade x = (if 2 powi e0 \<le> \<bar>x\<bar> then e0 else e0 - 1)"
    by (simp add: binade_def pq e0_def)
  show "2 powi binade x \<le> \<bar>x\<bar>" using lo by (simp add: b)
  show "\<bar>x\<bar> < 2 powi (binade x + 1)" using hi by (simp add: b)
qed

lemma binade_less:
  assumes "x \<noteq> 0" and "\<bar>x\<bar> < 2 powi j"
  shows "binade x < j"
proof (rule ccontr)
  assume "\<not> binade x < j"
  then have "j \<le> binade x" by simp
  then have "(2 powi j :: rat) \<le> 2 powi binade x" by (rule power_int_increasing) simp
  with binade_bounds(1) [OF assms(1)] assms(2) show False by linarith
qed

lemma binade_ge:
  assumes "x \<noteq> 0" and "2 powi j \<le> \<bar>x\<bar>"
  shows "j \<le> binade x"
proof (rule ccontr)
  assume "\<not> j \<le> binade x"
  then have "binade x + 1 \<le> j" by simp
  then have "(2 powi (binade x + 1) :: rat) \<le> 2 powi j" by (rule power_int_increasing) simp
  with binade_bounds(2) [OF assms(1)] assms(2) show False by linarith
qed

subsection \<open>Representable values and the floor of a quotient\<close>

lemma fl_exact:
  assumes m: "\<bar>m\<bar> < 2 ^ 53" and k: "- 1074 \<le> k"
  shows "fl (of_int m * 2 powi k) = of_int m * 2 powi k"
proof (cases "m = 0")
  case True
  then show ?thesis by (simp add: fl_def)
next
  case False
  define x :: rat where "x = of_int m * 2 powi k"
  have x0: "x \<noteq> 0" using False by (simp add: x_def)
  have "(of_int \<bar>m\<bar> :: rat) < of_int (2 ^ 53)" using m by (simp only: of_int_less_iff)
  then have "\<bar>of_int m :: rat\<bar> < 2 powi 53" by simp
  then have "\<bar>of_int m :: rat\<bar> * 2 powi k < 2 powi 53 * 2 powi k"
    by (rule mult_strict_right_mono) simp
  then have "\<bar>x\<bar> < 2 powi (53 + k)"
    by (simp add: x_def abs_mult power_int_add)
  with x0 have "binade x < 53 + k" by (rule binade_less)
  with k have ue: "ulp_exp x \<le> k" by (simp add: ulp_exp_def)
  define u :: rat where "u = 2 powi ulp_exp x"
  have u: "0 < u" by (simp add: u_def)
  have "x / u = of_int m * 2 powi (k - ulp_exp x)"
    by (simp add: x_def u_def power_int_diff)
  also have "\<dots> = of_int (m * 2 ^ nat (k - ulp_exp x))"
    using ue by (simp add: power_int_nonneg_exp)
  finally have "rne (x / u) = m * 2 ^ nat (k - ulp_exp x)"
    by (simp only: rne_of_int)
  then have "of_int (rne (x / u)) * u = of_int m * 2 powi (k - ulp_exp x) * u"
    using ue by (simp add: power_int_nonneg_exp)
  also have "\<dots> = x" by (simp add: x_def u_def power_int_diff)
  finally show ?thesis using x0 by (simp add: fl_def x_def u_def)
qed

lemma fl_half_int: "\<bar>m\<bar> < 2 ^ 53 \<Longrightarrow> fl (of_int m / 2) = of_int m / 2"
  using fl_exact [of m "- 1"] by (simp add: power_int_minus_divide)

lemma fl_int: "\<bar>n\<bar> < 2 ^ 53 \<Longrightarrow> fl (of_int n) = of_int n"
  using fl_exact [of n 0] by simp

lemma fl_div_floor:
  assumes b: "0 < b" "b < 2 ^ 53" and a: "\<bar>a\<bar> < 2 ^ 53"
  shows "\<lfloor>fl (of_int a / of_int b)\<rfloor> = a div b"
proof (cases "a = 0")
  case True
  then show ?thesis by (simp add: fl_def)
next
  case False
  define x :: rat where "x = of_int a / of_int b"
  have x0: "x \<noteq> 0" using False b by (simp add: x_def)
  have ra: "(1 :: rat) \<le> \<bar>of_int a\<bar>"
  proof -
    have "1 \<le> \<bar>a\<bar>" using False by simp
    then have "(of_int 1 :: rat) \<le> of_int \<bar>a\<bar>" by (simp only: of_int_le_iff)
    then show ?thesis by simp
  qed
  have rb: "(of_int b :: rat) \<le> 2 powi 53"
  proof -
    have "(of_int b :: rat) < of_int (2 ^ 53)" using b(2) by (simp only: of_int_less_iff)
    then show ?thesis by simp
  qed
  have "1 / 2 powi 53 \<le> \<bar>of_int a :: rat\<bar> / of_int b"
    by (rule frac_le) (use ra rb b in simp_all)
  then have lo: "2 powi (- 53) \<le> \<bar>x\<bar>"
    using b by (simp add: x_def power_int_minus_divide abs_divide)
  have "\<bar>x\<bar> \<le> \<bar>of_int a\<bar>"
  proof -
    have "\<bar>of_int a :: rat\<bar> / of_int b \<le> \<bar>of_int a\<bar> / 1"
      by (rule frac_le) (use b in simp_all)
    then show ?thesis using b by (simp add: x_def abs_divide)
  qed
  moreover have "\<bar>of_int a :: rat\<bar> < 2 powi 53"
  proof -
    have "(of_int \<bar>a\<bar> :: rat) < of_int (2 ^ 53)" using a by (simp only: of_int_less_iff)
    then show ?thesis by simp
  qed
  ultimately have hi: "\<bar>x\<bar> < 2 powi 53" by linarith
  from x0 hi have e_hi: "binade x < 53" by (rule binade_less)
  from x0 lo have e_lo: "- 53 \<le> binade x" by (rule binade_ge)
  have ue: "ulp_exp x = binade x - 52" using e_lo by (simp add: ulp_exp_def)
  define u :: rat where "u = 2 powi ulp_exp x"
  have u: "0 < u" by (simp add: u_def)
  have K: "1 / u = of_int (2 ^ nat (52 - binade x))"
    using e_hi by (simp add: u_def ue power_int_minus_divide [symmetric] power_int_nonneg_exp)
  have "u = 2 powi binade x / 2 ^ 52" by (simp add: u_def ue power_int_diff)
  then have "2 ^ 52 * u = 2 powi binade x" by simp
  then have big: "2 ^ 52 * u \<le> \<bar>of_int a / of_int b\<bar>"
    using binade_bounds(1) [OF x0] by (simp add: x_def)
  from scaled_floor [OF b(1) a u K big]
  show ?thesis using x0 by (simp add: fl_def x_def u_def)
qed

subsection \<open>The operations on integers and half-integers below \<open>2^52\<close>\<close>

lemma half_integer_of_int: "half_integer (of_int n)"
  by (simp add: half_integer_def)

lemma half_integer_half: "half_integer (of_int n / 2)"
  by (simp add: half_integer_def)

lemma half_integer_add: "half_integer x \<Longrightarrow> half_integer y \<Longrightarrow> half_integer (x + y)"
  by (simp add: half_integer_def distrib_left)

lemma half_integer_diff: "half_integer x \<Longrightarrow> half_integer y \<Longrightarrow> half_integer (x - y)"
  by (simp add: half_integer_def right_diff_distrib)

lemma half_integer_mult_int: "half_integer x \<Longrightarrow> half_integer (x * of_int n)"
  unfolding half_integer_def by (simp add: mult.assoc [symmetric])

lemma half_integer_cases:
  assumes "half_integer x" and "small_rat x"
  obtains m where "x = of_int m / 2" and "\<bar>m\<bar> < 2 ^ 53"
proof -
  from assms(1) obtain m where m: "2 * x = of_int m"
    unfolding half_integer_def by (rule Ints_cases)
  then have x: "x = of_int m / 2" by simp
  from assms(2) have "\<bar>2 * x\<bar> < 2 ^ 53" by (simp add: small_rat_def)
  with m have "(of_int \<bar>m\<bar> :: rat) < of_int (2 ^ 53)" by simp
  then have "\<bar>m\<bar> < 2 ^ 53" by (simp only: of_int_less_iff)
  with x show ?thesis by (rule that)
qed

lemma fl_half_integer:
  assumes "half_integer x" and "small_rat x"
  shows "fl x = x"
proof -
  from assms obtain m where "x = of_int m / 2" and "\<bar>m\<bar> < 2 ^ 53"
    by (rule half_integer_cases)
  then show ?thesis by (simp only: fl_half_int)
qed

lemma small_below_limit: "small_rat x \<Longrightarrow> \<not> dbl_limit \<le> \<bar>x\<bar>"
proof -
  assume "small_rat x"
  then have "\<bar>x\<bar> < 2 ^ 52" by (simp add: small_rat_def)
  moreover have "(2 :: rat) ^ 52 \<le> 2 ^ 1024" by (rule power_increasing) simp_all
  ultimately show ?thesis by (simp add: dbl_limit_def)
qed

lemma fround_half_integer: "half_integer x \<Longrightarrow> small_rat x \<Longrightarrow> fround x = Finite x"
  using small_below_limit [of x] by (auto simp: fround_def fl_half_integer Let_def)

lemma small_rat_of_int: "small_int n \<Longrightarrow> small_rat (of_int n)"
proof -
  assume "small_int n"
  then have "(of_int \<bar>n\<bar> :: rat) < of_int (2 ^ 52)" unfolding small_int_def by (simp only: of_int_less_iff)
  then show ?thesis by (simp add: small_rat_def)
qed

lemma int_to_float_small: "small_int n \<Longrightarrow> int_to_float n = Inr (Finite (of_int n))"
  using small_below_limit [of "of_int n"] fl_half_integer [of "of_int n"]
  by (simp add: int_to_float_def small_rat_of_int half_integer_of_int Let_def)

lemma small_rat_half: "small_int n \<Longrightarrow> small_rat (of_int n / 2)"
  using small_rat_of_int [of n] by (simp add: small_rat_def)

lemma py_truediv_two: "small_int a \<Longrightarrow> py_truediv a 2 = Inr (Finite (of_int a / 2))"
  using small_below_limit [of "of_int a / 2"] fl_half_integer [of "of_int a / 2"]
  by (simp add: py_truediv_def small_rat_half half_integer_half Let_def)

lemma py_round3_half_integer:
  assumes "half_integer x" and "small_rat x"
  shows "py_round3 (Finite x) = Finite x"
proof -
  from assms obtain m where x: "x = of_int m / 2" by (rule half_integer_cases)
  have "x * 1000 = of_int (m * 500)" by (simp add: x)
  then have "rne (x * 1000) = m * 500" by (simp only: rne_of_int)
  then have "of_int (rne (x * 1000)) / 1000 = x" by (simp add: x)
  with assms show ?thesis by (simp add: fround_half_integer)
qed

lemma py_truediv_floor:
  assumes b: "0 < b" "b < 2 ^ 53" and a: "\<bar>a\<bar> < 2 ^ 53"
  shows "bind (py_truediv a b) math_floor = Inr (a div b)"
proof -
  define x :: rat where "x = of_int a / of_int b"
  define r where "r = fl x"
  have fl: "\<lfloor>r\<rfloor> = \<lfloor>x\<rfloor>"
    unfolding r_def x_def using fl_div_floor [OF b a] by (simp add: floor_divide_of_int_eq)
  have "\<bar>of_int a :: rat\<bar> / of_int b \<le> \<bar>of_int a\<bar> / 1"
    by (rule frac_le) (use b in simp_all)
  moreover have "(of_int \<bar>a\<bar> :: rat) < of_int (2 ^ 53)" using a by (simp only: of_int_less_iff)
  ultimately have xb: "\<bar>x\<bar> < 2 ^ 53" using b by (simp add: x_def abs_divide)
  have "of_int \<lfloor>x\<rfloor> \<le> x" "x < of_int \<lfloor>x\<rfloor> + 1"
    "of_int \<lfloor>r\<rfloor> \<le> r" "r < of_int \<lfloor>r\<rfloor> + 1" by linarith+
  with xb have "\<bar>r\<bar> < 2 ^ 53 + 2" unfolding fl by linarith
  moreover have "(2 :: rat) ^ 53 + 2 \<le> 2 ^ 1024" by simp
  ultimately have "\<not> dbl_limit \<le> \<bar>r\<bar>" by (simp add: dbl_limit_def)
  then show ?thesis using b(1) fl
    by (simp add: py_truediv_def bind_def r_def x_def Let_def floor_divide_of_int_eq)
qed

section \<open>The loop computes the specified scan on small values\<close>

lemma compute_output_size_exact:
  assumes "1 \<le> stride l" and "small_int (stride l)"
    and "small_int (n + 2 * padding l - ((kernel_size l - 1) * dilation l + 1))"
  shows "compute_output_size l n = Inr (spec_output_size l n)"
proof -
  let ?a = "n + 2 * padding l - ((kernel_size l - 1) * dilation l + 1)"
  from assms have "bind (py_truediv ?a (stride l)) math_floor = Inr (?a div stride l)"
    by (intro py_truediv_floor) (simp_all add: small_int_def)
  then have "compute_output_size l n = Inr (?a div stride l + 1)"
    by (auto simp: compute_output_size_def get_effective_kernel_size_def bind_def Let_def
        split: sum.splits)
  moreover have "spec_output_size l n = ?a div stride l + 1"
    unfolding spec_output_size_def by (simp only: floor_divide_of_int_eq)
  ultimately show ?thesis by simp
qed

lemma loop_body_exact:
  assumes r: "step_in_range v l" and h: "half_integer (sc_start v)"
  shows "loop_body l (as_locals v) = Inr (as_locals (spec_step v l))"
    and "half_integer (sc_start (spec_step v l))"
    and "small_rat (sc_start (spec_step v l))"
proof -
  define k where "k = (kernel_size l - 1) * dilation l"
  define d :: rat where "d = of_int k / 2 - of_int (padding l)"
  define s' where "s' = sc_start v + d * of_int (sc_j v)"
  from r have st: "1 \<le> stride l" "small_int (stride l)"
    and sk: "small_int k" and sp: "small_int (padding l)" and sj: "small_int (sc_j v)"
    and sd: "small_rat d" and sdj: "small_rat (d * of_int (sc_j v))" and ss: "small_rat s'"
    and sh: "small_int (sc_height v + 2 * padding l - (k + 1))"
    and sw: "small_int (sc_width v + 2 * padding l - (k + 1))"
    by (simp_all add: step_in_range_def Let_def k_def d_def s'_def)
  have hd: "half_integer d"
    unfolding d_def by (intro half_integer_diff half_integer_half half_integer_of_int)
  have hdj: "half_integer (d * of_int (sc_j v))"
    using hd by (rule half_integer_mult_int)
  have hs: "half_integer s'"
    unfolding s'_def using h hdj by (rule half_integer_add)
  have e1: "py_truediv k 2 = Inr (Finite (of_int k / 2))" using sk by (rule py_truediv_two)
  have e2: "int_to_float (padding l) = Inr (Finite (of_int (padding l)))"
    using sp by (rule int_to_float_small)
  have e3: "int_to_float (sc_j v) = Inr (Finite (of_int (sc_j v)))"
    using sj by (rule int_to_float_small)
  have e4: "fsub (Finite (of_int k / 2)) (Finite (of_int (padding l))) = Finite d"
    using fround_half_integer [OF hd sd] by (simp add: fsub_def d_def)
  have e5: "fmul (Finite d) (Finite (of_int (sc_j v))) = Finite (d * of_int (sc_j v))"
    using fround_half_integer [OF hdj sdj] by simp
  have e6: "fadd (Finite (sc_start v)) (Finite (d * of_int (sc_j v))) = Finite s'"
    using fround_half_integer [OF hs ss] by (simp add: s'_def)
  have e7: "py_round3 (Finite s') = Finite s'" using hs ss by (rule py_round3_half_integer)
  have e8: "compute_output_size l (sc_height v) = Inr (spec_output_size l (sc_height v))"
    using st sh by (intro compute_output_size_exact) (simp_all add: k_def)
  have e9: "compute_output_size l (sc_width v) = Inr (spec_output_size l (sc_width v))"
    using st sw by (intro compute_output_size_exact) (simp_all add: k_def)
  have s'_eq: "sc_start (spec_step v l) = s'"
    by (simp add: spec_step_def Let_def s'_def d_def k_def)
  show "half_integer (sc_start (spec_step v l))" using hs by (simp only: s'_eq)
  show "small_rat (sc_start (spec_step v l))" using ss by (simp only: s'_eq)
  have keff: "get_effective_kernel_size l - 1 = k"
    by (simp add: get_effective_kernel_size_def k_def)
  show "loop_body l (as_locals v) = Inr (as_locals (spec_step v l))"
    unfolding loop_body_def Let_def keff
    by (simp add: as_locals_def bind_def e1 e2 e3 e4 e5 e6 e7 e8 e9 spec_step_def Let_def
        s'_def [symmetric] d_def [symmetric] k_def [symmetric] get_effective_kernel_size_def
        del: py_round3.simps fadd.simps fmul.simps)
qed

lemma run_loop_exact:
  assumes "scan_in_range v ls" and "half_integer (sc_start v)" and "small_rat (sc_start v)"
  shows "run_loop ls (as_locals v) = Inr (as_locals (foldl spec_step v ls))
    \<and> half_integer (sc_start (foldl spec_step v ls))
    \<and> small_rat (sc_start (foldl spec_step v ls))"
  using assms
proof (induction ls arbitrary: v)
  case Nil
  then show ?case by simp
next
  case (Cons l ls)
  from Cons.prems have r: "step_in_range v l" and rest: "scan_in_range (spec_step v l) ls"
    by simp_all
  note step = loop_body_exact [OF r Cons.prems(2)]
  from Cons.IH [OF rest step(2) step(3)] step(1) show ?case
    by (simp add: bind_def)
qed

lemma compute_current_state_exact:
  assumes "trace_in_range c"
  shows "fst (compute_current_state c) = Inr (spec_trace c)"
proof -
  have "half_integer (sc_start (spec_initial c))" "small_rat (sc_start (spec_initial c))"
    by (simp_all add: spec_initial_def half_integer_def small_rat_def)
  with assms have loop:
    "run_loop (layers c) (as_locals (spec_initial c))
       = Inr (as_locals (foldl spec_step (spec_initial c) (layers c)))"
    and fin: "half_integer (sc_start (foldl spec_step (spec_initial c) (layers c)))"
      "small_rat (sc_start (foldl spec_step (spec_initial c) (layers c)))"
    using run_loop_exact [of "spec_initial c" "layers c"] by (simp_all add: trace_in_range_def)
  have init: "initial_locals c = as_locals (spec_initial c)"
    by (simp add: initial_locals_def as_locals_def spec_initial_def)
  define w where "w = foldl spec_step (spec_initial c) (layers c)"
  have "fst (compute_current_state c) =
      Inr \<lparr>trace_layers = l_results (as_locals w),
           current_rf = l_rf (as_locals w),
           current_jump = l_j (as_locals w),
           current_start = py_round3 (l_start (as_locals w)),
           input_dimensions =
             \<lparr>height = input_height c, width = input_width c,
              channels = input_channels c\<rparr>,
           final_dimensions =
             \<lparr>height = l_current_height (as_locals w), width = l_current_width (as_locals w),
              channels = l_current_channels (as_locals w)\<rparr>\<rparr>"
    by (simp add: compute_current_state_def init loop bind_def w_def del: py_round3.simps)
  with py_round3_half_integer [OF fin] show ?thesis
    by (simp add: spec_trace_def Let_def as_locals_def w_def del: py_round3.simps)
qed

section \<open>Auxiliary facts about the loop and two example traces\<close>

lemma start_literal_round: "py_round3 (Finite (1 / 2)) = Finite (1 / 2)"
  by (rule py_round3_half_integer) (simp_all add: half_integer_def small_rat_def)

lemma compute_no_layers:
  "layers c = [] \<Longrightarrow>
   fst (compute_current_state c) =
     Inr \<lparr>trace_layers = [], current_rf = 1, current_jump = 1,
          current_start = Finite (1 / 2),
          input_dimensions =
            \<lparr>height = input_height c, width = input_width c, channels = input_channels c\<rparr>,
          final_dimensions =
            \<lparr>height = input_height c, width = input_width c, channels = input_channels c\<rparr>\<rparr>"
  by (simp add: compute_current_state_def initial_locals_def bind_def start_literal_round
      del: py_round3.simps)

lemma conv_maxpool_in_range:
  "trace_in_range (calculator_init\<lparr>layers := [Conv2DLayer 3 1 0 1]\<rparr>)"
  "trace_in_range (calculator_init\<lparr>layers := [Conv2DLayer 3 1 0 1, MaxPool2DLayer 2 2 0]\<rparr>)"
  by (simp_all add: trace_in_range_def calculator_init_def reset_def spec_initial_def
      step_in_range_def spec_step_def Let_def small_int_def small_rat_def Conv2DLayer_def
      MaxPool2DLayer_def Layer_init_def spec_output_size_def)

lemma conv_trace:
  "spec_trace (calculator_init\<lparr>layers := [Conv2DLayer 3 1 0 1]\<rparr>) =
     \<lparr>trace_layers =
        [\<lparr>row_name = ''Conv2D'', row_kernel_size = 3, row_stride = 1,
            row_padding = 0, row_dilation = 1, row_effective_kernel = 3,
            row_receptive_field = 3, row_jump = 1,
            row_start = Finite (3 / 2), row_input_height = 224,
            row_input_width = 224, row_input_channels = 3,
            row_output_height = 222, row_output_width = 222,
            row_output_channels = 3\<rparr>],
        current_rf = 3, current_jump = 1, current_start = Finite (3 / 2),
        input_dimensions = \<lparr>height = 224, width = 224, channels = 3\<rparr>,
        final_dimensions = \<lparr>height = 222, width = 222, channels = 3\<rparr>\<rparr>"
  by (simp add: spec_trace_def calculator_init_def reset_def spec_initial_def
      spec_step_def Let_def Conv2DLayer_def Layer_init_def spec_output_size_def)

lemma conv_maxpool_trace:
  "spec_trace (calculator_init\<lparr>layers := [Conv2DLayer 3 1 0 1, MaxPool2DLayer 2 2 0]\<rparr>) =
     \<lparr>trace_layers =
        [\<lparr>row_name = ''Conv2D'', row_kernel_size = 3, row_stride = 1,
            row_padding = 0, row_dilation = 1, row_effective_kernel = 3,
            row_receptive_field = 3, row_jump = 1,
            row_start = Finite (3 / 2), row_input_height = 224,
            row_input_width = 224, row_input_channels = 3,
            row_output_height = 222, row_output_width = 222,
            row_output_channels = 3\<rparr>,
         \<lparr>row_name = ''MaxPool2D'', row_kernel_size = 2, row_stride = 2,
            row_padding = 0, row_dilation = 1, row_effective_kernel = 2,
            row_receptive_field = 4, row_jump = 2, row_start = Finite 2,
            row_input_height = 222, row_input_width = 222,
            row_input_channels = 3, row_output_height = 111,
            row_output_width = 111, row_output_channels = 3\<rparr>],
        current_rf = 4, current_jump = 2, current_start = Finite 2,
        input_dimensions = \<lparr>height = 224, width = 224, channels = 3\<rparr>,
        final_dimensions = \<lparr>height = 111, width = 111, channels = 3\<rparr>\<rparr>"
  by (simp add: spec_trace_def calculator_init_def reset_def spec_initial_def
      spec_step_def Let_def Conv2DLayer_def MaxPool2DLayer_def Layer_init_def
      spec_output_size_def)

lemma layers_init: "layers calculator_init = []"
  by (simp add: calculator_init_def reset_def)

lemma bind_eq_Inr: "bind m f = Inr y \<longleftrightarrow> (\<exists>x. m = Inr x \<and> f x = Inr y)"
  by (cases m) (simp_all add: bind_def)

lemma snd_compute: "snd (compute_current_state c) = c"
  by (simp add: compute_current_state_def)

lemma loop_body_channels:
  assumes "loop_body l v = Inr v'"
  shows "l_current_channels v' = l_current_channels v"
    and "\<exists>r. l_results v' = l_results v @ [r]
           \<and> row_input_channels r = l_current_channels v
           \<and> row_output_channels r = l_current_channels v"
  using assms
  by (auto simp: loop_body_def bind_eq_Inr Let_def simp del: py_round3.simps)

lemma run_loop_channels:
  assumes "run_loop ls v = Inr v'"
    and "\<forall>r \<in> set (l_results v).
           row_input_channels r = ch \<and> row_output_channels r = ch"
    and "l_current_channels v = ch"
  shows "l_current_channels v' = ch
    \<and> (\<forall>r \<in> set (l_results v'). row_input_channels r = ch \<and> row_output_channels r = ch)"
  using assms
proof (induction ls arbitrary: v)
  case Nil
  then show ?case by simp
next
  case (Cons l ls)
  from Cons.prems(1) obtain v1 where b: "loop_body l v = Inr v1" and r: "run_loop ls v1 = Inr v'"
    by (auto simp: bind_eq_Inr)
  from loop_body_channels [OF b] Cons.prems(2,3)
  have "l_current_channels v1 = ch"
    and "\<forall>r \<in> set (l_results v1). row_input_channels r = ch \<and> row_output_channels r = ch"
    by auto
  with Cons.IH [OF r] show ?case by blast
qed

section \<open>Auxiliary evaluations\<close>

lemma py_truediv_by_zero: "py_truediv a 0 = Inl ZeroDivisionError"
  by (simp add: py_truediv_def)

lemma py_truediv_0_2: "py_truediv 0 2 = Inr (Finite 0)"
  using py_truediv_two [of 0] by (simp add: small_int_def)

lemma int_to_float_0: "int_to_float 0 = Inr (Finite 0)"
  using int_to_float_small [of 0] by (simp add: small_int_def)

lemma int_to_float_1: "int_to_float 1 = Inr (Finite 1)"
  using int_to_float_small [of 1] by (simp add: small_int_def)

lemma int_to_float_m1: "int_to_float (- 1) = Inr (Finite (- 1))"
  using int_to_float_small [of "- 1"] by (simp add: small_int_def)

lemma fround_0: "fround 0 = Finite 0"
  by (simp add: fround_def fl_def dbl_limit_def)

lemma fround_half: "fround (1 / 2) = Finite (1 / 2)"
  using fround_half_integer [of "1 / 2"] by (simp add: half_integer_def small_rat_def)

lemma rows_length:
  "length (sc_rows (foldl spec_step v ls)) = length (sc_rows v) + length ls"
  by (induction ls arbitrary: v) (simp_all add: spec_step_def Let_def)

lemma huge_stride_rat: "(of_int huge_stride :: rat) = 2 powi 1024"
  by (simp add: huge_stride_def)

lemma huge_stride_big: "(223 :: rat) < of_int huge_stride" "dbl_limit \<le> of_int huge_stride"
  by (simp_all add: huge_stride_def dbl_limit_def)

lemma fl_tiny: "fl (223 / of_int huge_stride) = 223 / of_int huge_stride"
proof -
  have eq: "(223 :: rat) / of_int huge_stride = of_int 223 * 2 powi (- 1024)"
    unfolding huge_stride_rat by (simp add: power_int_minus_divide)
  show ?thesis unfolding eq by (rule fl_exact) simp_all
qed

lemma fl_huge: "fl (of_int huge_stride) = of_int huge_stride"
proof -
  have eq: "(of_int huge_stride :: rat) = of_int 1 * 2 powi 1024"
    unfolding huge_stride_rat by simp
  show ?thesis unfolding eq by (rule fl_exact) simp_all
qed

lemma int_to_float_huge: "int_to_float huge_stride = Inl OverflowError"
proof -
  have "dbl_limit \<le> \<bar>of_int huge_stride :: rat\<bar>"
    using huge_stride_big by linarith
  then show ?thesis
    by (simp only: int_to_float_def fl_huge Let_def if_True)
qed

lemma truediv_huge: "py_truediv 223 huge_stride = Inr (Finite (223 / of_int huge_stride))"
proof -
  have pos: "(0 :: rat) < of_int huge_stride" using huge_stride_big(1) by linarith
  then have nz: "huge_stride \<noteq> 0" by auto
  have "\<bar>223 / of_int huge_stride :: rat\<bar> < 1"
    using huge_stride_big(1) pos by (simp add: abs_divide)
  moreover have "1 \<le> dbl_limit" by (simp add: dbl_limit_def)
  ultimately have small: "\<not> dbl_limit \<le> \<bar>223 / of_int huge_stride :: rat\<bar>" by linarith
  have "py_truediv 223 huge_stride =
      (let r = fl (of_int 223 / of_int huge_stride)
       in if dbl_limit \<le> \<bar>r\<bar> then Inl OverflowError else Inr (Finite r))"
    using nz by (simp only: py_truediv_def if_False)
  also have "(of_int 223 :: rat) = 223" by simp
  finally show ?thesis using small by (simp only: fl_tiny Let_def if_False)
qed

lemma output_size_huge_stride:
  "compute_output_size (Conv2DLayer 1 huge_stride 0 1) 224 = Inr 1"
proof -
  have pos: "(0 :: rat) < of_int huge_stride" using huge_stride_big(1) by linarith
  have "\<lfloor>(223 :: rat) / of_int huge_stride\<rfloor> = 0"
    by (rule floor_unique) (use huge_stride_big(1) pos in simp_all)
  then show ?thesis
    by (simp add: compute_output_size_def get_effective_kernel_size_def Conv2DLayer_def
        Layer_init_def truediv_huge bind_def)
qed

section \<open>Properties of the calculator\<close>

text \<open>
  C6: \<open>compute_current_state\<close> is a function of the calculator alone. It leaves the
  calculator as it found it, and a second call right after the first returns the same
  result (and again the same calculator).
\<close>

theorem compute_current_state_pure:
  "snd (compute_current_state c) = c
   \<and> compute_current_state (snd (compute_current_state c)) = compute_current_state c"
  by (simp add: compute_current_state_def)

text \<open>
  C10: a pooling layer stores dilation 1 whatever dilation the request carries, so its
  effective kernel size is its kernel size; a convolution stores the dilation it is
  given. Every layer the add-layer handler builds that is not a convolution has
  dilation 1.
\<close>

theorem pooling_dilation_is_one:
  "dilation (MaxPool2DLayer k s p) = 1
   \<and> dilation (AvgPool2DLayer k s p) = 1
   \<and> get_effective_kernel_size (MaxPool2DLayer k s p) = k
   \<and> get_effective_kernel_size (AvgPool2DLayer k s p) = k
   \<and> dilation (Conv2DLayer k s p d) = d
   \<and> (\<forall>b l. requested_layer b = Some l \<and> \<not> is_Conv2DLayer l \<longrightarrow>
          dilation l = 1 \<and> get_effective_kernel_size l = kernel_size l)"
  by (auto simp: MaxPool2DLayer_def AvgPool2DLayer_def Conv2DLayer_def Layer_init_def
      get_effective_kernel_size_def requested_layer_def is_Conv2DLayer_def Let_def
      split: if_splits)

theorem pooling_dilation_is_one_witness:
  "requested_layer \<lparr>type_key = Some ''maxpool'', kernel_size_key = Some 2,
      stride_key = Some 2, padding_key = Some 0, dilation_key = Some 7\<rparr>
     = Some (MaxPool2DLayer 2 2 0)
   \<and> \<not> is_Conv2DLayer (MaxPool2DLayer 2 2 0)
   \<and> dilation (MaxPool2DLayer 2 2 0) = 1
   \<and> get_effective_kernel_size (MaxPool2DLayer 2 2 0) = kernel_size (MaxPool2DLayer 2 2 0)"
proof -
  let ?b = "\<lparr>type_key = Some ''maxpool'', kernel_size_key = Some 2,
      stride_key = Some 2, padding_key = Some 0, dilation_key = Some 7\<rparr>"
  have built: "requested_layer ?b = Some (MaxPool2DLayer 2 2 0)"
    by (simp add: requested_layer_def)
  have pool: "\<not> is_Conv2DLayer (MaxPool2DLayer 2 2 0)"
    by (simp add: is_Conv2DLayer_def MaxPool2DLayer_def Layer_init_def)
  from pooling_dilation_is_one [of 2 2 0 1]
  have "\<forall>b l. requested_layer b = Some l \<and> \<not> is_Conv2DLayer l \<longrightarrow>
          dilation l = 1 \<and> get_effective_kernel_size l = kernel_size l"
    by blast
  with built pool
  have "dilation (MaxPool2DLayer 2 2 0) = 1
    \<and> get_effective_kernel_size (MaxPool2DLayer 2 2 0) = kernel_size (MaxPool2DLayer 2 2 0)"
    by blast
  with built pool show ?thesis by blast
qed

text \<open>
  C2 (amended): the effective kernel size is \<open>(kernel_size - 1) * dilation + 1\<close>, and
  for a stride from 1 to below \<open>2^53\<close> and a numerator
  \<open>input_size + 2 * padding - effective_kernel\<close> below \<open>2^53\<close> in magnitude the
  output size is the floor of the exact quotient, plus one; that floor is the integer
  division that rounds toward minus infinity.
\<close>

theorem output_size_floor:
  assumes "1 \<le> stride l" and "stride l < 2 ^ 53"
    and "\<bar>input_size + 2 * padding l - get_effective_kernel_size l\<bar> < 2 ^ 53"
  shows "get_effective_kernel_size l = (kernel_size l - 1) * dilation l + 1
    \<and> compute_output_size l input_size = Inr (spec_output_size l input_size)
    \<and> spec_output_size l input_size
        = (input_size + 2 * padding l - get_effective_kernel_size l) div stride l + 1"
proof -
  let ?a = "input_size + 2 * padding l - get_effective_kernel_size l"
  from assms have "bind (py_truediv ?a (stride l)) math_floor = Inr (?a div stride l)"
    by (intro py_truediv_floor) simp_all
  then have "compute_output_size l input_size = Inr (?a div stride l + 1)"
    by (auto simp: compute_output_size_def bind_def Let_def split: sum.splits)
  moreover have "spec_output_size l input_size = ?a div stride l + 1"
    unfolding spec_output_size_def get_effective_kernel_size_def
    by (simp only: floor_divide_of_int_eq)
  ultimately show ?thesis by (simp add: get_effective_kernel_size_def)
qed

theorem output_size_floor_witness:
  "1 \<le> stride (Conv2DLayer 4 2 0 1) \<and> stride (Conv2DLayer 4 2 0 1) < 2 ^ 53
   \<and> \<bar>1 + 2 * padding (Conv2DLayer 4 2 0 1) - get_effective_kernel_size (Conv2DLayer 4 2 0 1)\<bar> < 2 ^ 53
   \<and> get_effective_kernel_size (Conv2DLayer 4 2 0 1) = 4
   \<and> compute_output_size (Conv2DLayer 4 2 0 1) 1 = Inr (- 1)"
proof -
  have h: "1 \<le> stride (Conv2DLayer 4 2 0 1)" "stride (Conv2DLayer 4 2 0 1) < 2 ^ 53"
    "\<bar>1 + 2 * padding (Conv2DLayer 4 2 0 1) - get_effective_kernel_size (Conv2DLayer 4 2 0 1)\<bar> < 2 ^ 53"
    by (simp_all add: Conv2DLayer_def Layer_init_def get_effective_kernel_size_def)
  from output_size_floor [OF h] h show ?thesis
    by (simp add: Conv2DLayer_def Layer_init_def get_effective_kernel_size_def)
qed

text \<open>
  C2 as stated fails for large sizes: the quotient is a float, and
  \<open>9007199254740993 / 1\<close> is the float \<open>9007199254740992.0\<close>.
\<close>

theorem output_size_not_exact_floor:
  "compute_output_size (Conv2DLayer 1 1 0 1) 9007199254740994 = Inr 9007199254740993
   \<and> spec_output_size (Conv2DLayer 1 1 0 1) 9007199254740994 = 9007199254740994"
  by code_simp

text \<open>
  C5: whatever the calculator was, \<open>reset\<close> gives the calculator a new object
  starts with: no layers, input 224 by 224 by 3, and the stored \<open>rf = 1\<close>,
  \<open>jump = 1\<close>, \<open>start = 0.5\<close>. A second \<open>reset\<close> changes nothing, and the trace
  computed next reports \<open>rf = 1\<close>, \<open>jump = 1\<close>, \<open>start = 0.5\<close>.
\<close>

theorem reset_restores_default:
  "reset c = calculator_init
   \<and> reset (reset c) = reset c
   \<and> layers (reset c) = []
   \<and> input_height (reset c) = 224 \<and> input_width (reset c) = 224
   \<and> input_channels (reset c) = 3
   \<and> rf (reset c) = 1 \<and> jump (reset c) = 1 \<and> start (reset c) = Finite (1 / 2)
   \<and> fst (compute_current_state (reset c)) =
       Inr \<lparr>trace_layers = [], current_rf = 1, current_jump = 1,
            current_start = Finite (1 / 2),
            input_dimensions = \<lparr>height = 224, width = 224, channels = 3\<rparr>,
            final_dimensions = \<lparr>height = 224, width = 224, channels = 3\<rparr>\<rparr>"
proof -
  have "layers (reset c) = []" by (simp add: reset_def)
  from compute_no_layers [OF this] show ?thesis
    by (simp add: reset_def calculator_init_def)
qed

text \<open>
  C8: for the default input 224 by 224 by 3 and no layers the trace has no rows,
  \<open>rf = 1\<close>, \<open>jump = 1\<close>, \<open>start = 0.5\<close>, and final dimensions equal to the input
  dimensions.
\<close>

theorem default_trace:
  "layers calculator_init = []
   \<and> input_height calculator_init = 224 \<and> input_width calculator_init = 224
   \<and> input_channels calculator_init = 3
   \<and> fst (compute_current_state calculator_init) =
       Inr \<lparr>trace_layers = [], current_rf = 1, current_jump = 1,
            current_start = Finite (1 / 2),
            input_dimensions = \<lparr>height = 224, width = 224, channels = 3\<rparr>,
            final_dimensions = \<lparr>height = 224, width = 224, channels = 3\<rparr>\<rparr>"
proof -
  have "layers calculator_init = []" by (simp add: calculator_init_def reset_def)
  from compute_no_layers [OF this] show ?thesis
    by (simp add: reset_def calculator_init_def)
qed

text \<open>
  C9 (amended): on the default 224 by 224 input, adding a convolution with kernel 3,
  stride 1, padding 0, dilation 1 gives a row with output 222 by 222, receptive field 3,
  jump 1 and start 1.5; adding a max pooling with kernel 2, stride 2, padding 0 after it
  gives output 111 by 111 and jump 2.
\<close>

theorem conv_then_maxpool:
  "fst (add_layer calculator_init (Conv2DLayer 3 1 0 1)) =
     Inr \<lparr>trace_layers =
        [\<lparr>row_name = ''Conv2D'', row_kernel_size = 3, row_stride = 1,
            row_padding = 0, row_dilation = 1, row_effective_kernel = 3,
            row_receptive_field = 3, row_jump = 1,
            row_start = Finite (3 / 2), row_input_height = 224,
            row_input_width = 224, row_input_channels = 3,
            row_output_height = 222, row_output_width = 222,
            row_output_channels = 3\<rparr>],
        current_rf = 3, current_jump = 1, current_start = Finite (3 / 2),
        input_dimensions = \<lparr>height = 224, width = 224, channels = 3\<rparr>,
        final_dimensions = \<lparr>height = 222, width = 222, channels = 3\<rparr>\<rparr>
   \<and> fst (add_layer (snd (add_layer calculator_init (Conv2DLayer 3 1 0 1)))
          (MaxPool2DLayer 2 2 0)) =
     Inr \<lparr>trace_layers =
        [\<lparr>row_name = ''Conv2D'', row_kernel_size = 3, row_stride = 1,
            row_padding = 0, row_dilation = 1, row_effective_kernel = 3,
            row_receptive_field = 3, row_jump = 1,
            row_start = Finite (3 / 2), row_input_height = 224,
            row_input_width = 224, row_input_channels = 3,
            row_output_height = 222, row_output_width = 222,
            row_output_channels = 3\<rparr>,
         \<lparr>row_name = ''MaxPool2D'', row_kernel_size = 2, row_stride = 2,
            row_padding = 0, row_dilation = 1, row_effective_kernel = 2,
            row_receptive_field = 4, row_jump = 2, row_start = Finite 2,
            row_input_height = 222, row_input_width = 222,
            row_input_channels = 3, row_output_height = 111,
            row_output_width = 111, row_output_channels = 3\<rparr>],
        current_rf = 4, current_jump = 2, current_start = Finite 2,
        input_dimensions = \<lparr>height = 224, width = 224, channels = 3\<rparr>,
        final_dimensions = \<lparr>height = 111, width = 111, channels = 3\<rparr>\<rparr>"
proof -
  have one: "fst (add_layer calculator_init (Conv2DLayer 3 1 0 1))
      = Inr (spec_trace (calculator_init\<lparr>layers := [Conv2DLayer 3 1 0 1]\<rparr>))"
    by (simp add: add_layer_def layers_init compute_current_state_exact conv_maxpool_in_range)
  have "add_layer (snd (add_layer calculator_init (Conv2DLayer 3 1 0 1))) (MaxPool2DLayer 2 2 0)
      = compute_current_state
          (calculator_init\<lparr>layers := [Conv2DLayer 3 1 0 1, MaxPool2DLayer 2 2 0]\<rparr>)"
    by (simp add: add_layer_def snd_compute layers_init)
  then have two:
    "fst (add_layer (snd (add_layer calculator_init (Conv2DLayer 3 1 0 1))) (MaxPool2DLayer 2 2 0))
      = Inr (spec_trace
          (calculator_init\<lparr>layers := [Conv2DLayer 3 1 0 1, MaxPool2DLayer 2 2 0]\<rparr>))"
    by (simp add: compute_current_state_exact conv_maxpool_in_range)
  show ?thesis
    unfolding one two conv_trace conv_maxpool_trace by simp
qed

text \<open>
  C9 as stated fails: the start of the convolution row is
  \<open>0.5 + ((3 - 1) / 2 - 0) * 1 = 1.5\<close>, not 1.0.
\<close>

theorem conv_start_is_not_one:
  "row_start (hd (trace_layers (projr (fst (add_layer calculator_init (Conv2DLayer 3 1 0 1))))))
     \<noteq> Finite 1"
proof -
  have "fst (add_layer calculator_init (Conv2DLayer 3 1 0 1))
      = Inr (spec_trace (calculator_init\<lparr>layers := [Conv2DLayer 3 1 0 1]\<rparr>))"
    by (simp add: add_layer_def layers_init compute_current_state_exact conv_maxpool_in_range)
  then show ?thesis
    unfolding conv_trace by simp
qed

text \<open>
  C7: in every trace the calculator returns, each row has its output channels equal
  to its input channels, which are the declared input channels, and the final channels
  are the declared input channels.
\<close>

theorem channels_pass_through:
  assumes "fst (compute_current_state c) = Inr t"
  shows "(\<forall>r \<in> set (trace_layers t).
            row_output_channels r = row_input_channels r
            \<and> row_input_channels r = input_channels c)
    \<and> channels (final_dimensions t) = input_channels c
    \<and> channels (input_dimensions t) = input_channels c"
proof -
  from assms obtain v where loop: "run_loop (layers c) (initial_locals c) = Inr v"
    and t: "t = \<lparr>trace_layers = l_results v, current_rf = l_rf v, current_jump = l_j v,
             current_start = py_round3 (l_start v),
             input_dimensions =
               \<lparr>height = input_height c, width = input_width c,
                channels = input_channels c\<rparr>,
             final_dimensions =
               \<lparr>height = l_current_height v, width = l_current_width v,
                channels = l_current_channels v\<rparr>\<rparr>"
    by (auto simp: compute_current_state_def bind_eq_Inr simp del: py_round3.simps)
  from run_loop_channels [OF loop, of "input_channels c"]
  have "l_current_channels v = input_channels c
    \<and> (\<forall>r \<in> set (l_results v).
          row_input_channels r = input_channels c \<and> row_output_channels r = input_channels c)"
    by (simp add: initial_locals_def)
  then show ?thesis by (simp add: t)
qed

theorem channels_pass_through_witness:
  "fst (compute_current_state
          (calculator_init\<lparr>layers := [Conv2DLayer 3 1 0 1, MaxPool2DLayer 2 2 0]\<rparr>))
     = Inr (spec_trace
          (calculator_init\<lparr>layers := [Conv2DLayer 3 1 0 1, MaxPool2DLayer 2 2 0]\<rparr>))
   \<and> map row_input_channels (trace_layers (spec_trace
          (calculator_init\<lparr>layers := [Conv2DLayer 3 1 0 1, MaxPool2DLayer 2 2 0]\<rparr>))) = [3, 3]
   \<and> map row_output_channels (trace_layers (spec_trace
          (calculator_init\<lparr>layers := [Conv2DLayer 3 1 0 1, MaxPool2DLayer 2 2 0]\<rparr>))) = [3, 3]
   \<and> channels (final_dimensions (spec_trace
          (calculator_init\<lparr>layers := [Conv2DLayer 3 1 0 1, MaxPool2DLayer 2 2 0]\<rparr>))) = 3"
proof -
  let ?c = "calculator_init\<lparr>layers := [Conv2DLayer 3 1 0 1, MaxPool2DLayer 2 2 0]\<rparr>"
  have run: "fst (compute_current_state ?c) = Inr (spec_trace ?c)"
    by (simp add: compute_current_state_exact conv_maxpool_in_range)
  have ch: "input_channels ?c = 3" by (simp add: calculator_init_def reset_def)
  obtain r1 r2 where rows: "trace_layers (spec_trace ?c) = [r1, r2]"
    by (simp add: conv_maxpool_trace)
  from channels_pass_through [OF run] ch
  have all: "\<forall>r \<in> set (trace_layers (spec_trace ?c)).
        row_output_channels r = row_input_channels r \<and> row_input_channels r = 3"
    and fin: "channels (final_dimensions (spec_trace ?c)) = 3"
    by simp_all
  from all have "map row_input_channels [r1, r2] = [3, 3]"
    and "map row_output_channels [r1, r2] = [3, 3]"
    unfolding rows by simp_all
  with run fin show ?thesis unfolding rows by simp
qed

text \<open>
  C3 (amended): constructing a layer checks nothing; the layer stores the kernel size,
  stride and padding it is given (and a convolution the dilation). \<open>add_layer\<close> never
  changes the input dimensions or the layers already there, and whenever it returns a
  trace the calculator is the old one with the layer appended.
\<close>

theorem add_layer_appends:
  "kernel_size (Conv2DLayer k s p d) = k \<and> stride (Conv2DLayer k s p d) = s
   \<and> padding (Conv2DLayer k s p d) = p \<and> dilation (Conv2DLayer k s p d) = d
   \<and> kernel_size (MaxPool2DLayer k s p) = k \<and> stride (MaxPool2DLayer k s p) = s
   \<and> padding (MaxPool2DLayer k s p) = p
   \<and> kernel_size (AvgPool2DLayer k s p) = k \<and> stride (AvgPool2DLayer k s p) = s
   \<and> padding (AvgPool2DLayer k s p) = p
   \<and> input_height (snd (add_layer c l)) = input_height c
   \<and> input_width (snd (add_layer c l)) = input_width c
   \<and> input_channels (snd (add_layer c l)) = input_channels c
   \<and> take (length (layers c)) (layers (snd (add_layer c l))) = layers c
   \<and> (\<forall>t. fst (add_layer c l) = Inr t \<longrightarrow>
         snd (add_layer c l) = c\<lparr>layers := layers c @ [l]\<rparr>)"
  by (simp add: Conv2DLayer_def MaxPool2DLayer_def AvgPool2DLayer_def Layer_init_def
      add_layer_def snd_compute)

theorem add_layer_appends_witness:
  "fst (add_layer calculator_init (Conv2DLayer 3 1 0 1))
     = Inr (spec_trace (calculator_init\<lparr>layers := [Conv2DLayer 3 1 0 1]\<rparr>))
   \<and> snd (add_layer calculator_init (Conv2DLayer 3 1 0 1))
     = calculator_init\<lparr>layers := [Conv2DLayer 3 1 0 1]\<rparr>"
proof -
  have ok: "fst (add_layer calculator_init (Conv2DLayer 3 1 0 1))
      = Inr (spec_trace (calculator_init\<lparr>layers := [Conv2DLayer 3 1 0 1]\<rparr>))"
    by (simp add: add_layer_def layers_init compute_current_state_exact conv_maxpool_in_range)
  from add_layer_appends [of 3 1 0 1 calculator_init "Conv2DLayer 3 1 0 1"]
  have "\<forall>t. fst (add_layer calculator_init (Conv2DLayer 3 1 0 1)) = Inr t \<longrightarrow>
      snd (add_layer calculator_init (Conv2DLayer 3 1 0 1))
        = calculator_init\<lparr>layers := layers calculator_init @ [Conv2DLayer 3 1 0 1]\<rparr>"
    by blast
  with ok have "snd (add_layer calculator_init (Conv2DLayer 3 1 0 1))
        = calculator_init\<lparr>layers := layers calculator_init @ [Conv2DLayer 3 1 0 1]\<rparr>"
    by blast
  with ok show ?thesis by (simp add: layers_init)
qed

text \<open>
  C3 as stated fails: a convolution with kernel size 0, stride 0, padding -1 and
  dilation 0 is built without complaint; adding it fails with \<open>ZeroDivisionError\<close> in
  the trace computation, after the layer has been appended, and the layer stays.
\<close>

theorem zero_stride_layer_is_kept:
  "requested_layer \<lparr>type_key = Some ''conv'', kernel_size_key = Some 0,
      stride_key = Some 0, padding_key = Some (- 1), dilation_key = Some 0\<rparr>
     = Some (Conv2DLayer 0 0 (- 1) 0)
   \<and> api_add_layer calculator_init \<lparr>type_key = Some ''conv'', kernel_size_key = Some 0,
      stride_key = Some 0, padding_key = Some (- 1), dilation_key = Some 0\<rparr>
     = (Error_400 (Str_of ZeroDivisionError),
        calculator_init\<lparr>layers := [Conv2DLayer 0 0 (- 1) 0]\<rparr>)"
proof -
  let ?b = "\<lparr>type_key = Some ''conv'', kernel_size_key = Some 0,
      stride_key = Some 0, padding_key = Some (- 1), dilation_key = Some 0\<rparr>"
  let ?l = "Conv2DLayer 0 0 (- 1) 0"
  have built: "requested_layer ?b = Some ?l" by (simp add: requested_layer_def)
  have "compute_output_size ?l n = Inl ZeroDivisionError" for n
    by (simp add: compute_output_size_def Conv2DLayer_def Layer_init_def py_truediv_by_zero
        bind_def)
  then have "loop_body ?l (initial_locals c) = Inl ZeroDivisionError" for c
    by (simp add: loop_body_def Let_def bind_def get_effective_kernel_size_def
        Conv2DLayer_def Layer_init_def py_truediv_0_2 int_to_float_m1 int_to_float_1
        initial_locals_def del: py_round3.simps fadd.simps fmul.simps)
  then have "compute_current_state (calculator_init\<lparr>layers := [?l]\<rparr>)
      = (Inl ZeroDivisionError, calculator_init\<lparr>layers := [?l]\<rparr>)"
    by (simp add: compute_current_state_def bind_def)
  then have "add_layer calculator_init ?l
      = (Inl ZeroDivisionError, calculator_init\<lparr>layers := [?l]\<rparr>)"
    by (simp add: add_layer_def layers_init)
  with built show ?thesis by (simp add: api_add_layer_def)
qed

text \<open>
  C4 (amended): the handler for setting the input dimensions answers a height, width
  or channel count that is zero or negative with the one message
  \<open>Dimensions must be positive integers\<close> and leaves the calculator as it was; for
  three positive values it stores them. In both cases, and in the calculator's own
  \<open>set_input_dimensions\<close>, the layers are unchanged.
\<close>

theorem set_input_dimensions_handler:
  "(h \<le> 0 \<or> w \<le> 0 \<or> ch \<le> 0 \<longrightarrow>
      api_set_input_dimensions c (Some h) (Some w) (Some ch)
        = (Error_400 (Message ''Dimensions must be positive integers''), c))
   \<and> (0 < h \<and> 0 < w \<and> 0 < ch \<longrightarrow>
      snd (api_set_input_dimensions c (Some h) (Some w) (Some ch))
        = c\<lparr>input_height := h, input_width := w, input_channels := ch\<rparr>)
   \<and> layers (snd (api_set_input_dimensions c (Some h) (Some w) (Some ch))) = layers c
   \<and> layers (set_input_dimensions c h w ch) = layers c"
  by (auto simp: api_set_input_dimensions_def set_input_dimensions_def Let_def
      compute_current_state_def split: sum.splits)

theorem set_input_dimensions_handler_witness:
  "api_set_input_dimensions calculator_init (Some 0) (Some 224) (Some 3)
     = (Error_400 (Message ''Dimensions must be positive integers''), calculator_init)
   \<and> snd (api_set_input_dimensions calculator_init (Some 32) (Some 32) (Some 1))
     = calculator_init\<lparr>input_height := 32, input_width := 32, input_channels := 1\<rparr>"
  using set_input_dimensions_handler [of 0 224 3 calculator_init]
    set_input_dimensions_handler [of 32 32 1 calculator_init]
  by simp

text \<open>
  C4 as stated fails: the calculator's own \<open>set_input_dimensions\<close> stores a height
  of zero, and the handler's error for a bad height is the same response as for a bad
  width, so it does not say which field is invalid.
\<close>

theorem set_input_dimensions_unvalidated:
  "input_height (set_input_dimensions calculator_init 0 224 3) = 0
   \<and> fst (api_set_input_dimensions calculator_init (Some 0) (Some 224) (Some 3))
     = fst (api_set_input_dimensions calculator_init (Some 224) (Some 0) (Some 3))"
  by (simp add: set_input_dimensions_def api_set_input_dimensions_def)

text \<open>
  C1 (amended): on every calculator whose scan stays in range (each stride at least 1,
  and every integer and half-integer the scan forms below \<open>2^52\<close> in magnitude),
  \<open>compute_current_state\<close> returns the specified trace: one forward scan from
  \<open>rf = 1\<close>, \<open>j = 1\<close>, \<open>start = 1/2\<close> and the declared input dimensions, with
  \<open>rf + (k_eff - 1) * j\<close>, \<open>start + ((k_eff - 1) / 2 - padding) * j\<close> and
  \<open>j * stride\<close> in exact arithmetic, one row for each layer, and the final values.
\<close>

theorem trace_is_forward_scan:
  assumes "trace_in_range c"
  shows "fst (compute_current_state c) = Inr (spec_trace c)
    \<and> length (trace_layers (spec_trace c)) = length (layers c)"
  using compute_current_state_exact [OF assms]
  by (simp add: spec_trace_def Let_def rows_length spec_initial_def)

theorem trace_is_forward_scan_witness:
  "trace_in_range (calculator_init\<lparr>layers := [Conv2DLayer 3 1 0 1, MaxPool2DLayer 2 2 0]\<rparr>)
   \<and> fst (compute_current_state
        (calculator_init\<lparr>layers := [Conv2DLayer 3 1 0 1, MaxPool2DLayer 2 2 0]\<rparr>))
     = Inr (spec_trace
        (calculator_init\<lparr>layers := [Conv2DLayer 3 1 0 1, MaxPool2DLayer 2 2 0]\<rparr>))
   \<and> current_rf (spec_trace
        (calculator_init\<lparr>layers := [Conv2DLayer 3 1 0 1, MaxPool2DLayer 2 2 0]\<rparr>)) = 4
   \<and> current_jump (spec_trace
        (calculator_init\<lparr>layers := [Conv2DLayer 3 1 0 1, MaxPool2DLayer 2 2 0]\<rparr>)) = 2
   \<and> current_start (spec_trace
        (calculator_init\<lparr>layers := [Conv2DLayer 3 1 0 1, MaxPool2DLayer 2 2 0]\<rparr>)) = Finite 2"
  using trace_is_forward_scan [OF conv_maxpool_in_range(2)] conv_maxpool_in_range(2)
  by (simp add: conv_maxpool_trace)

text \<open>
  C1 as stated fails: after a layer of stride \<open>2^1024\<close> the jump no longer converts
  to a float, and the trace computation of the next layer raises \<open>OverflowError\<close>.
\<close>

theorem huge_stride_overflows:
  "fst (compute_current_state
     (calculator_init\<lparr>layers := [Conv2DLayer 1 huge_stride 0 1, Conv2DLayer 1 1 0 1]\<rparr>))
   = Inl OverflowError"
proof -
  let ?c = "calculator_init\<lparr>layers := [Conv2DLayer 1 huge_stride 0 1, Conv2DLayer 1 1 0 1]\<rparr>"
  have "\<exists>v1. loop_body (Conv2DLayer 1 huge_stride 0 1) (initial_locals ?c) = Inr v1
      \<and> l_j v1 = huge_stride"
    using output_size_huge_stride
    by (simp add: loop_body_def Let_def bind_def get_effective_kernel_size_def
        Conv2DLayer_def Layer_init_def py_truediv_0_2 int_to_float_0 int_to_float_1
        fsub_def fround_0 fround_half initial_locals_def calculator_init_def reset_def
        del: py_round3.simps)
  then obtain v1 where one: "loop_body (Conv2DLayer 1 huge_stride 0 1) (initial_locals ?c) = Inr v1"
    and j1: "l_j v1 = huge_stride" by blast
  have two: "loop_body (Conv2DLayer 1 1 0 1) v1 = Inl OverflowError"
    by (simp add: loop_body_def Let_def bind_def get_effective_kernel_size_def
        Conv2DLayer_def Layer_init_def py_truediv_0_2 int_to_float_0 j1 int_to_float_huge
        del: py_round3.simps)
  show ?thesis
    by (simp add: compute_current_state_def bind_def one two)
qed

end
